theory Spec2Isabelle
  imports Main "HOL-Library.Sublist"
begin

section \<open>Calls made to the host\<close>

text \<open>
  Everything \<^verbatim>\<open>extension.ts\<close> does is a call into the editor host, the Node
  runtime or a sibling module. The model records each such call as an \<open>action\<close>; a
  handler returns the list of actions it performs, in order. Handles (child
  processes, output channels) are opaque numbers.
\<close>

type_synonym proc = nat
type_synonym channel = nat
type_synonym selection = "(nat \<times> nat) \<times> (nat \<times> nat)"

datatype action =
    Spawn string "string list" "string option"
  | RunRlsViaRustup
  | ConsoleError "string list"
  | ShowWarningMessage string
  | SetStatusBarMessage string
  | CreateWriteStream string string
  | StreamWrite string string
  | StreamEnd string
  | ChannelAppend channel string
  | ChannelShow channel bool
  | StartSpinner string
  | StopSpinner string
  | SendRequest string string selection

section \<open>diagnosticCounter\<close>

text \<open>
  \<^verbatim>\<open>let runningDiagnostics = 0\<close> and the two notification handlers registered once the
  client is ready. The counter is a JavaScript number; adding and subtracting one is
  exact on integers of magnitude below \<open>2^53\<close>, a number of notifications no session
  reaches, so the model uses \<open>int\<close>.
\<close>

datatype notification = DiagnosticsBegin | DiagnosticsEnd

fun onNotification :: "notification \<Rightarrow> int \<Rightarrow> int \<times> action list" where
  "onNotification DiagnosticsBegin runningDiagnostics =
     (runningDiagnostics + 1, [StartSpinner ''RLS analysis: working''])"
| "onNotification DiagnosticsEnd runningDiagnostics =
     (let r = runningDiagnostics - 1
      in (r, if r \<le> 0 then [StopSpinner ''RLS analysis: done''] else []))"

text \<open>Notifications are handled one at a time, in the order they arrive.\<close>

fun deliver :: "notification list \<Rightarrow> int \<Rightarrow> int \<times> action list" where
  "deliver [] c = (c, [])"
| "deliver (n # ns) c =
     (case onNotification n c of (c', acts) \<Rightarrow>
        (case deliver ns c' of (c'', rest) \<Rightarrow> (c'', acts @ rest)))"

definition diagnosticCounter :: "notification list \<Rightarrow> int \<times> action list" where
  "diagnosticCounter ns = deliver ns 0"

text \<open>
  Modelled from the spec: the spinner module (\<^verbatim>\<open>./spinner\<close>) is not part of the
  source at hand. The spec's state machine has the states Idle and Busy, starts Idle,
  enters Busy with the start-spinner action and Idle with the stop-spinner action.
\<close>

datatype status = Idle | Busy

fun spinner :: "status \<Rightarrow> action \<Rightarrow> status" where
  "spinner st (StartSpinner m) = Busy"
| "spinner st (StopSpinner m) = Idle"
| "spinner st a = st"

definition visible_status :: "action list \<Rightarrow> status" where
  "visible_status acts = foldl spinner Idle acts"

definition status_after :: "notification list \<Rightarrow> status" where
  "status_after ns = visible_status (snd (diagnosticCounter ns))"

text \<open>
  The spec's reference count: begins minus ends, each decrement floored at zero.
\<close>

fun floored :: "int \<Rightarrow> notification list \<Rightarrow> int" where
  "floored c [] = c"
| "floored c (DiagnosticsBegin # ns) = floored (c + 1) ns"
| "floored c (DiagnosticsEnd # ns) = floored (max 0 (c - 1)) ns"

definition floored_count :: "notification list \<Rightarrow> int" where
  "floored_count ns = floored 0 ns"

text \<open>The plain difference of the number of begins and the number of ends.\<close>

definition net_count :: "notification list \<Rightarrow> int" where
  "net_count ns = int (count_list ns DiagnosticsBegin) - int (count_list ns DiagnosticsEnd)"

text \<open>
  A sequence is well formed when each end follows a begin it can be matched with: no
  prefix holds more ends than begins.
\<close>

fun matched :: "int \<Rightarrow> notification list \<Rightarrow> bool" where
  "matched c [] = True"
| "matched c (DiagnosticsBegin # ns) = matched (c + 1) ns"
| "matched c (DiagnosticsEnd # ns) = (0 < c \<and> matched (c - 1) ns)"

definition well_formed :: "notification list \<Rightarrow> bool" where
  "well_formed ns = matched 0 ns"

section \<open>JavaScript values\<close>

text \<open>
  An environment variable read through \<^verbatim>\<open>process.env\<close>, and
  \<^verbatim>\<open>workspace.rootPath\<close>, is a string or \<^verbatim>\<open>undefined\<close>. A condition
  \<^verbatim>\<open>if (v)\<close> on such a value holds when it is defined and not the empty string;
  concatenating it to a string renders \<^verbatim>\<open>undefined\<close> by its name.
\<close>

definition truthy :: "string option \<Rightarrow> bool" where
  "truthy v = (case v of None \<Rightarrow> False | Some s \<Rightarrow> s \<noteq> [])"

definition js_string :: "string option \<Rightarrow> string" where
  "js_string v = (case v of None \<Rightarrow> ''undefined'' | Some s \<Rightarrow> s)"

text \<open>
  An \<^verbatim>\<open>Error\<close> object with the fields the source reads; \<open>code\<close> is absent on
  errors that are not system errors. \<open>error_to_string\<close> is
  \<^verbatim>\<open>Error.prototype.toString\<close>, which string concatenation applies.
\<close>

record js_error =
  name :: string
  message :: string
  code :: "string option"

definition error_to_string :: "js_error \<Rightarrow> string" where
  "error_to_string e =
     (if name e = [] then message e
      else if message e = [] then name e
      else name e @ '': '' @ message e)"

text \<open>The values a rejected request carries as its reason.\<close>

datatype js_value = JUndefined | JNull | JString string | JError js_error

fun to_string :: "js_value \<Rightarrow> string" where
  "to_string JUndefined = ''undefined''"
| "to_string JNull = ''null''"
| "to_string (JString s) = s"
| "to_string (JError e) = error_to_string e"

text \<open>
  \<^verbatim>\<open>Date.now()\<close> is a non-negative whole number of milliseconds; concatenating
  it to a string writes it in decimal.
\<close>

definition digit :: "nat \<Rightarrow> char" where
  "digit d = ''0123456789'' ! d"


function decimal :: "nat \<Rightarrow> string" where
  "decimal n = (if n < 10 then [digit n] else decimal (n div 10) @ [digit (n mod 10)])"
  by pat_completeness auto
termination
  by (relation "measure (\<lambda>n. n)") auto

declare decimal.simps [simp del]

text \<open>
  A chunk of the error stream is a string, or a buffer that the listeners decode with
  \<^verbatim>\<open>toString\<close> (UTF-8 in both listeners); a buffer is given here by its decoding.
\<close>

datatype chunk = StringChunk string | BufferChunk string

fun chunk_text :: "chunk \<Rightarrow> string" where
  "chunk_text (StringChunk s) = s"
| "chunk_text (BufferChunk s) = s"

section \<open>Configuration and environment\<close>

text \<open>
  \<^verbatim>\<open>RevealOutputChannelOn\<close> is the enumeration of the language-client library,
  with its numeric values; the comparison in the source is on these numbers.
\<close>

datatype RevealOutputChannelOn = Info | Warn | Error | Never

fun severity :: "RevealOutputChannelOn \<Rightarrow> nat" where
  "severity Info = 1"
| "severity Warn = 2"
| "severity Error = 3"
| "severity Never = 4"

text \<open>The fields of \<^verbatim>\<open>CONFIGURATION\<close> that the source reads, loaded once.\<close>

record RLSConfiguration =
  logToFile :: bool
  showStderrInOutputChannel :: bool
  revealOutputChannelOn :: RevealOutputChannelOn

text \<open>
  What the runtime answers when the launcher runs: the two environment variables,
  the result of \<^verbatim>\<open>child_process.spawn\<close> (a handle, or an exception thrown at the
  call), the promise of \<^verbatim>\<open>runRlsViaRustup\<close> (resolved with a handle, or rejected),
  the workspace root and the clock.
\<close>

datatype spawn_reply = Spawned proc | SpawnThrows js_error

datatype rustup_reply = RustupResolves proc | RustupRejects js_value

record host =
  RLS_PATH :: "string option"
  RLS_ROOT :: "string option"
  spawn :: "string \<Rightarrow> string list \<Rightarrow> string option \<Rightarrow> spawn_reply"
  runRlsViaRustup :: rustup_reply
  rootPath :: "string option"
  now :: nat

section \<open>makeRlsProcess\<close>

text \<open>
  The listeners that a launch leaves on a child process: the error listener on the
  process (always), the log stream with its \<^verbatim>\<open>open\<close> and \<^verbatim>\<open>error\<close>
  handlers (when logging to a file), the number of \<^verbatim>\<open>data\<close> listeners that the
  \<^verbatim>\<open>open\<close> handler has added to the error stream so far, the \<^verbatim>\<open>data\<close>
  listener that forwards to the output channel (when enabled), and the value of the
  parameter \<^verbatim>\<open>lcOutputChannel\<close> that this listener closes over.
\<close>

record log_sink =
  logPath :: string
  data_listeners :: nat

record listeners =
  child :: proc
  logStream :: "log_sink option"
  stderr_shown :: bool
  lcOutputChannel :: "channel option"

definition log_path :: "string option \<Rightarrow> nat \<Rightarrow> string" where
  "log_path root t = js_string root @ ''/rls'' @ decimal t @ ''.log''"

text \<open>The callback of \<^verbatim>\<open>childProcessPromise.then\<close>.\<close>

definition onSpawned ::
  "RLSConfiguration \<Rightarrow> host \<Rightarrow> channel option \<Rightarrow> proc \<Rightarrow> listeners \<times> action list" where
  "onSpawned cfg h ch p =
     (let path = log_path (rootPath h) (now h)
      in (\<lparr>child = p,
           logStream = (if logToFile cfg then Some \<lparr>logPath = path, data_listeners = 0\<rparr> else None),
           stderr_shown = showStderrInOutputChannel cfg,
           lcOutputChannel = ch\<rparr>,
          if logToFile cfg then [CreateWriteStream path ''w+''] else []))"

text \<open>
  The launcher itself only obtains the promise of a process and registers two
  callbacks on it; both run later, as promise jobs: the callback of \<^verbatim>\<open>then\<close>,
  which attaches the listeners to the process and closes over the parameter
  \<^verbatim>\<open>lcOutputChannel\<close>, and the handler of \<^verbatim>\<open>catch\<close>.
\<close>

datatype job = ThenJob proc "channel option" | CatchJob

text \<open>
  The result of one call of the launcher: the calls it made, whether it threw at the
  call (\<open>Inl\<close>) or returned a promise and what that promise resolves with
  (\<open>None\<close> is \<^verbatim>\<open>undefined\<close>, the value of the \<^verbatim>\<open>catch\<close> handler), and the
  promise job it leaves behind. The returned promise is never rejected: its only source
  of rejection is handled by \<^verbatim>\<open>catch\<close>. \<^verbatim>\<open>CONFIGURATION\<close> is a constant of the
  module, read by the job only.
\<close>

record launch =
  calls :: "action list"
  outcome :: "js_error + proc option"
  queued :: "job option"

definition spawned ::
  "host \<Rightarrow> channel option \<Rightarrow> string \<Rightarrow> string list \<Rightarrow> string option \<Rightarrow> launch" where
  "spawned h ch cmd args cwd =
     (case spawn h cmd args cwd of
        SpawnThrows e \<Rightarrow> \<lparr>calls = [Spawn cmd args cwd], outcome = Inl e, queued = None\<rparr>
      | Spawned p \<Rightarrow>
          \<lparr>calls = [Spawn cmd args cwd], outcome = Inr (Some p), queued = Some (ThenJob p ch)\<rparr>)"

definition makeRlsProcess :: "RLSConfiguration \<Rightarrow> host \<Rightarrow> channel option \<Rightarrow> launch" where
  "makeRlsProcess cfg h ch =
     (let rls_path = RLS_PATH h; rls_root = RLS_ROOT h
      in if truthy rls_path then spawned h ch (js_string rls_path) [] None
         else if truthy rls_root then
           spawned h ch ''cargo'' [''run'', ''--release''] (Some (js_string rls_root))
         else
           (case runRlsViaRustup h of
              RustupResolves p \<Rightarrow>
                \<lparr>calls = [RunRlsViaRustup], outcome = Inr (Some p), queued = Some (ThenJob p ch)\<rparr>
            | RustupRejects r \<Rightarrow>
                \<lparr>calls = [RunRlsViaRustup], outcome = Inr None, queued = Some CatchJob\<rparr>))"

text \<open>
  The events the runtime delivers to the attached listeners, and what each handler
  does. \<open>Inl\<close> is an exception thrown out of the handler.
\<close>

datatype event =
    ProcessError js_error
  | StreamOpen
  | StreamError js_error
  | StderrData chunk

definition show_stderr :: "RLSConfiguration \<Rightarrow> listeners \<Rightarrow> chunk \<Rightarrow> action list" where
  "show_stderr cfg l c =
     (if stderr_shown l then
        (case lcOutputChannel l of
           None \<Rightarrow> []
         | Some ch \<Rightarrow>
             ChannelAppend ch (chunk_text c) #
             (if severity (revealOutputChannelOn cfg) \<le> severity Info
              then [ChannelShow ch True] else []))
      else [])"

definition log_stderr :: "listeners \<Rightarrow> chunk \<Rightarrow> action list" where
  "log_stderr l c =
     (case logStream l of
        None \<Rightarrow> []
      | Some s \<Rightarrow> replicate (data_listeners s) (StreamWrite (logPath s) (chunk_text c)))"

fun step :: "RLSConfiguration \<Rightarrow> listeners \<Rightarrow> event \<Rightarrow> js_error + listeners \<times> action list" where
  "step cfg l (ProcessError err) =
     (if code err = Some ''ENOENT''
      then Inr (l, [ConsoleError [''Could not spawn RLS process: '', message err],
                    ShowWarningMessage ''Could not start RLS''])
      else Inl err)"
| "step cfg l StreamOpen =
     Inr (case logStream l of
            None \<Rightarrow> l
          | Some s \<Rightarrow> l\<lparr>logStream := Some (s\<lparr>data_listeners := data_listeners s + 1\<rparr>)\<rparr>, [])"
| "step cfg l (StreamError err) =
     Inr (l, case logStream l of
               None \<Rightarrow> []
             | Some s \<Rightarrow>
                 [ConsoleError [''Couldn'' @ [CHR 0x27] @ ''t write to '' @ logPath s @ '' ('' @
                                error_to_string err @ '')''],
                  StreamEnd (logPath s)])"
| "step cfg l (StderrData c) = Inr (l, show_stderr cfg l c @ log_stderr l c)"

text \<open>
  A run of events; it ends at the first exception, with the actions performed so far.
\<close>

fun run :: "RLSConfiguration \<Rightarrow> listeners \<Rightarrow> event list \<Rightarrow> action list \<times> (js_error + listeners)" where
  "run cfg l [] = ([], Inr l)"
| "run cfg l (e # es) =
     (case step cfg l e of
        Inl err \<Rightarrow> ([], Inl err)
      | Inr (l', acts) \<Rightarrow> (case run cfg l' es of (rest, r) \<Rightarrow> (acts @ rest, r)))"

text \<open>
  What a promise job does when it runs: the callback of \<^verbatim>\<open>then\<close> attaches the
  listeners, the handler of \<^verbatim>\<open>catch\<close> sets the status message and leaves no
  process.
\<close>

fun run_job :: "RLSConfiguration \<Rightarrow> host \<Rightarrow> job \<Rightarrow> listeners option \<times> action list" where
  "run_job cfg h (ThenJob p ch) = (case onSpawned cfg h ch p of (l, acts) \<Rightarrow> (Some l, acts))"
| "run_job cfg h CatchJob = (None, [SetStatusBarMessage ''RLS could not be started''])"

text \<open>
  A launch once its promise job has run: the listeners in place, if any, and the calls
  of the launcher followed by those of the job.
\<close>

definition settle ::
  "RLSConfiguration \<Rightarrow> host \<Rightarrow> channel option \<Rightarrow> listeners option \<times> action list" where
  "settle cfg h ch =
     (let r = makeRlsProcess cfg h ch
      in case queued r of
           None \<Rightarrow> (None, calls r)
         | Some j \<Rightarrow> (case run_job cfg h j of (l, acts) \<Rightarrow> (l, calls r @ acts)))"

text \<open>
  Between the return of the launcher and its promise job the process has no listener.
  The runtime decides what comes first, the job or an event of the process. An
  \<^verbatim>\<open>error\<close> event emitted on a process without an error listener is thrown as an
  exception; a stream without a \<^verbatim>\<open>data\<close> listener does not deliver chunks, and the
  log stream does not exist yet, so the other events have no effect before the job.
\<close>

datatype launch_state = Waiting job | Listening listeners | NoProcess

datatype runtime_event = PromiseJob | ProcessEvent event

fun advance ::
  "RLSConfiguration \<Rightarrow> host \<Rightarrow> launch_state \<Rightarrow> runtime_event \<Rightarrow> js_error + launch_state \<times> action list" where
  "advance cfg h (Waiting j) PromiseJob =
     (case run_job cfg h j of
        (Some l, acts) \<Rightarrow> Inr (Listening l, acts)
      | (None, acts) \<Rightarrow> Inr (NoProcess, acts))"
| "advance cfg h (Waiting (ThenJob p ch)) (ProcessEvent (ProcessError err)) = Inl err"
| "advance cfg h (Waiting j) (ProcessEvent ev) = Inr (Waiting j, [])"
| "advance cfg h (Listening l) PromiseJob = Inr (Listening l, [])"
| "advance cfg h (Listening l) (ProcessEvent ev) =
     (case step cfg l ev of
        Inl err \<Rightarrow> Inl err
      | Inr (l', acts) \<Rightarrow> Inr (Listening l', acts))"
| "advance cfg h NoProcess ev = Inr (NoProcess, [])"

fun schedule ::
  "RLSConfiguration \<Rightarrow> host \<Rightarrow> launch_state \<Rightarrow> runtime_event list \<Rightarrow> action list \<times> (js_error + launch_state)" where
  "schedule cfg h s [] = ([], Inr s)"
| "schedule cfg h s (e # es) =
     (case advance cfg h s e of
        Inl err \<Rightarrow> ([], Inl err)
      | Inr (s', acts) \<Rightarrow> (case schedule cfg h s' es of (rest, r) \<Rightarrow> (acts @ rest, r)))"

section \<open>Log files\<close>





section \<open>activate\<close>

text \<open>
  \<^verbatim>\<open>activate\<close> declares the variable \<^verbatim>\<open>lcOutputChannel\<close> with the value
  \<^verbatim>\<open>null\<close>, builds the closure \<^verbatim>\<open>() => makeRlsProcess(lcOutputChannel)\<close>, and
  assigns the client's output channel to the variable after the client is constructed.
  The closure reads the variable when the language client invokes it and passes the
  value it finds to the launcher. The state of an activation is the variable and the
  listeners of the processes launched so far; at this level a launch is taken together
  with its promise job.
\<close>

record activation =
  lcOutputChannelVar :: "channel option"
  sessions :: "listeners list"

datatype host_event =
    InvokeServerOptions host
  | AssignOutputChannel channel
  | Emit nat event

fun host_step ::
  "RLSConfiguration \<Rightarrow> activation \<Rightarrow> host_event \<Rightarrow> js_error + activation \<times> action list" where
  "host_step cfg a (InvokeServerOptions h) =
     (case outcome (makeRlsProcess cfg h (lcOutputChannelVar a)) of
        Inl e \<Rightarrow> Inl e
      | Inr v \<Rightarrow>
          (case settle cfg h (lcOutputChannelVar a) of (l, acts) \<Rightarrow>
             Inr (a\<lparr>sessions := sessions a @ (case l of None \<Rightarrow> [] | Some l \<Rightarrow> [l])\<rparr>, acts)))"
| "host_step cfg a (AssignOutputChannel ch) = Inr (a\<lparr>lcOutputChannelVar := Some ch\<rparr>, [])"
| "host_step cfg a (Emit i ev) =
     (if i < length (sessions a) then
        (case step cfg (sessions a ! i) ev of
           Inl e \<Rightarrow> Inl e
         | Inr (l', acts) \<Rightarrow> Inr (a\<lparr>sessions := (sessions a)[i := l']\<rparr>, acts))
      else Inr (a, []))"

fun host_run ::
  "RLSConfiguration \<Rightarrow> activation \<Rightarrow> host_event list \<Rightarrow> action list \<times> (js_error + activation)" where
  "host_run cfg a [] = ([], Inr a)"
| "host_run cfg a (e # es) =
     (case host_step cfg a e of
        Inl err \<Rightarrow> ([], Inl err)
      | Inr (a', acts) \<Rightarrow> (case host_run cfg a' es of (rest, r) \<Rightarrow> (acts @ rest, r)))"

text \<open>
  The order of \<^verbatim>\<open>activate\<close> itself: the status message, the variable set to
  \<^verbatim>\<open>null\<close>, the client constructed and its channel assigned, and only then
  \<^verbatim>\<open>lc.start()\<close>, which is where the client invokes the closure; the events of the
  running session follow.
\<close>

definition activate ::
  "RLSConfiguration \<Rightarrow> host \<Rightarrow> channel \<Rightarrow> host_event list \<Rightarrow> action list \<times> (js_error + activation)" where
  "activate cfg h outputChannel later =
     (case host_run cfg \<lparr>lcOutputChannelVar = None, sessions = []\<rparr>
             (AssignOutputChannel outputChannel # InvokeServerOptions h # later) of
        (acts, r) \<Rightarrow> (SetStatusBarMessage ''RLS analysis: starting up'' # acts, r))"

section \<open>registerCommands\<close>

text \<open>
  The handler of the command \<^verbatim>\<open>rls.deglob\<close>. \<^verbatim>\<open>lc.sendRequest\<close> returns a
  promise that is fulfilled or rejected with a reason, or throws at the call; the source
  has no handler around the call, so such an exception leaves the command handler.
\<close>

record text_editor =
  uri :: string
  selection :: selection

datatype request_reply = Fulfilled | Rejected js_value | RequestThrows js_error

fun deglob :: "text_editor \<Rightarrow> request_reply \<Rightarrow> js_error + action list" where
  "deglob ed Fulfilled = Inr [SendRequest ''rustWorkspace/deglob'' (uri ed) (selection ed)]"
| "deglob ed (Rejected reason) =
     Inr [SendRequest ''rustWorkspace/deglob'' (uri ed) (selection ed),
          ShowWarningMessage (''deglob command failed: '' @ to_string reason)]"
| "deglob ed (RequestThrows e) = Inl e"

fun is_warning :: "action \<Rightarrow> bool" where
  "is_warning (ShowWarningMessage m) = True"
| "is_warning a = False"

fun is_channel_action :: "action \<Rightarrow> bool" where
  "is_channel_action (ChannelAppend ch t) = True"
| "is_channel_action (ChannelShow ch b) = True"
| "is_channel_action a = False"

fun is_launch :: "action \<Rightarrow> bool" where
  "is_launch (Spawn cmd args cwd) = True"
| "is_launch RunRlsViaRustup = True"
| "is_launch a = False"

section \<open>Properties of the diagnostics aggregator\<close>

lemma deliver_append:
  "deliver (xs @ ys) c =
     (case deliver xs c of (c', a) \<Rightarrow> (case deliver ys c' of (c'', b) \<Rightarrow> (c'', a @ b)))"
  by (induction xs arbitrary: c) (auto split: prod.splits)

lemma onNotification_counter:
  "fst (onNotification n c) = (case n of DiagnosticsBegin \<Rightarrow> c + 1 | DiagnosticsEnd \<Rightarrow> c - 1)"
  by (cases n) (simp_all add: Let_def)

lemma deliver_counter: "fst (deliver ns c) = c + net_count ns"
proof (induction ns arbitrary: c)
  case Nil
  show ?case by (simp add: net_count_def)
next
  case (Cons n ns)
  obtain c' acts where step: "onNotification n c = (c', acts)" by (cases "onNotification n c")
  have c': "c' = (case n of DiagnosticsBegin \<Rightarrow> c + 1 | DiagnosticsEnd \<Rightarrow> c - 1)"
    using onNotification_counter [of n c] step by simp
  have "fst (deliver (n # ns) c) = fst (deliver ns c')"
    using step by (simp split: prod.splits)
  also have "\<dots> = c' + net_count ns" by (rule Cons.IH)
  also have "\<dots> = c + net_count (n # ns)"
    using c' by (cases n) (simp_all add: net_count_def)
  finally show ?case .
qed

lemma status_snoc:
  "status_after (ns @ [n]) =
     (case n of DiagnosticsBegin \<Rightarrow> Busy
      | DiagnosticsEnd \<Rightarrow> if net_count ns - 1 \<le> 0 then Idle else status_after ns)"
proof -
  obtain c acts where d: "deliver ns 0 = (c, acts)" by (cases "deliver ns 0")
  have c: "c = net_count ns" using deliver_counter [of ns 0] d by simp
  show ?thesis
    using d c by (cases n) (simp_all add: status_after_def diagnosticCounter_def deliver_append
        visible_status_def Let_def)
qed

lemma net_count_snoc:
  "net_count (ns @ [n]) = net_count ns + (case n of DiagnosticsBegin \<Rightarrow> 1 | DiagnosticsEnd \<Rightarrow> - 1)"
  by (cases n) (simp_all add: net_count_def)

lemma status_busy_iff:
  "status_after ns = Busy \<longleftrightarrow> ns \<noteq> [] \<and> (last ns = DiagnosticsBegin \<or> 0 < net_count ns)"
proof (induction ns rule: rev_induct)
  case Nil
  show ?case by (simp add: status_after_def diagnosticCounter_def visible_status_def)
next
  case (snoc n ns)
  show ?case
  proof (cases n)
    case DiagnosticsBegin
    then show ?thesis by (simp add: status_snoc)
  next
    case DiagnosticsEnd
    have empty: "net_count [] = 0" by (simp add: net_count_def)
    show ?thesis
    proof (cases "net_count ns - 1 \<le> 0")
      case True
      then show ?thesis using DiagnosticsEnd by (simp add: status_snoc net_count_snoc)
    next
      case False
      then have pos: "0 < net_count ns" by simp
      then have "ns \<noteq> []" using empty by auto
      then have "status_after ns = Busy" using snoc.IH pos by simp
      then show ?thesis using DiagnosticsEnd False by (simp add: status_snoc net_count_snoc)
    qed
  qed
qed

lemma matched_floored:
  "0 \<le> c \<Longrightarrow> matched c ns \<Longrightarrow> floored c ns = c + net_count ns"
proof (induction c ns rule: floored.induct)
  case (1 c)
  then show ?case by (simp add: net_count_def)
next
  case (2 c ns)
  then show ?case by (simp add: net_count_def)
next
  case (3 c ns)
  then show ?case by (simp add: net_count_def)
qed

lemma matched_last:
  "0 \<le> c \<Longrightarrow> matched c ns \<Longrightarrow> ns \<noteq> [] \<Longrightarrow> last ns = DiagnosticsBegin \<Longrightarrow> 0 < c + net_count ns"
proof (induction c ns rule: matched.induct)
  case (1 c)
  then show ?case by simp
next
  case (2 c ns)
  then show ?case
    by (cases "ns = []") (simp_all add: net_count_def)
next
  case (3 c ns)
  then show ?case
    by (cases "ns = []") (simp_all add: net_count_def)
qed

text \<open>
  Claim C1, as the code has it. After any sequence of begin and end notifications,
  handled one at a time in order, the visible status is Busy exactly when the sequence
  is not empty and either ends with a begin or has seen more begins than ends; the
  counter is the plain difference of begins and ends and is not floored. On a sequence
  where no prefix has more ends than begins, this is the spec's criterion: Busy exactly
  when the floored running count is positive. A begin always enters Busy, whatever the
  number of unmatched ends before it.
\<close>

theorem busy_iff_counter:
  "(status_after ns = Busy \<longleftrightarrow> ns \<noteq> [] \<and> (last ns = DiagnosticsBegin \<or> 0 < net_count ns))
   \<and> (well_formed ns \<longrightarrow> (status_after ns = Busy \<longleftrightarrow> 0 < floored_count ns))
   \<and> status_after (ns @ [DiagnosticsBegin]) = Busy
   \<and> fst (diagnosticCounter ns) = net_count ns"
proof -
  have general: "status_after ns = Busy \<longleftrightarrow> ns \<noteq> [] \<and> (last ns = DiagnosticsBegin \<or> 0 < net_count ns)"
    by (rule status_busy_iff)
  have wf: "status_after ns = Busy \<longleftrightarrow> 0 < floored_count ns" if w: "well_formed ns"
  proof -
    have m: "matched 0 ns" using w by (simp add: well_formed_def)
    have fl: "floored_count ns = net_count ns"
      using matched_floored [of 0 ns] m by (simp add: floored_count_def)
    have empty: "net_count [] = 0" by (simp add: net_count_def)
    show ?thesis
    proof (cases "ns = []")
      case True
      then show ?thesis using general fl empty by simp
    next
      case False
      then show ?thesis using general fl matched_last [of 0 ns] m by auto
    qed
  qed
  have re: "status_after (ns @ [DiagnosticsBegin]) = Busy" by (simp add: status_snoc)
  have cnt: "fst (diagnosticCounter ns) = net_count ns"
    using deliver_counter [of ns 0] by (simp add: diagnosticCounter_def)
  show ?thesis using general wf re cnt by blast
qed

theorem busy_iff_counter_witness:
  "well_formed [DiagnosticsBegin, DiagnosticsBegin, DiagnosticsEnd]
   \<and> status_after [DiagnosticsBegin, DiagnosticsBegin, DiagnosticsEnd] = Busy
   \<and> floored_count [DiagnosticsBegin, DiagnosticsBegin, DiagnosticsEnd] = 1"
  using busy_iff_counter [of "[DiagnosticsBegin, DiagnosticsBegin, DiagnosticsEnd]"]
  by (simp add: well_formed_def floored_count_def)

text \<open>
  Claim C1 as stated fails: after end, begin, begin, end the floored count is 1, yet the
  counter of the code went -1, 0, 1, 0 and the last end stopped the spinner.
\<close>

theorem floored_busy_counterexample:
  "\<not> (status_after [DiagnosticsEnd, DiagnosticsBegin, DiagnosticsBegin, DiagnosticsEnd] = Busy
       \<longleftrightarrow> 0 < floored_count [DiagnosticsEnd, DiagnosticsBegin, DiagnosticsBegin, DiagnosticsEnd])"
  by (simp add: status_after_def diagnosticCounter_def visible_status_def floored_count_def)

text \<open>
  Claim C2, as the code has it. Every begin increments the counter and starts the
  spinner with the working message, whatever the counter was; every end decrements
  the counter and stops the spinner with the done message exactly when the decremented
  counter is at most zero.
\<close>

theorem spinner_actions:
  "onNotification DiagnosticsBegin c = (c + 1, [StartSpinner ''RLS analysis: working''])
   \<and> onNotification DiagnosticsEnd c =
       (c - 1, if c - 1 \<le> 0 then [StopSpinner ''RLS analysis: done''] else [])
   \<and> (StopSpinner ''RLS analysis: done'' \<in> set (snd (onNotification DiagnosticsEnd c)) \<longleftrightarrow> c - 1 \<le> 0)"
  by (simp add: Let_def)

theorem spinner_actions_witness:
  "snd (onNotification DiagnosticsBegin 1) = [StartSpinner ''RLS analysis: working'']
   \<and> snd (onNotification DiagnosticsEnd 2) = []
   \<and> snd (onNotification DiagnosticsEnd 1) = [StopSpinner ''RLS analysis: done'']"
  using spinner_actions [of 1] spinner_actions [of 2] by simp

text \<open>
  Claim C2 as stated fails on a begin that arrives while the counter is 1: the spinner
  is started again although the counter does not leave zero.
\<close>

theorem start_on_transition_counterexample:
  "\<not> (StartSpinner ''RLS analysis: working'' \<in> set (snd (onNotification DiagnosticsBegin 1))
       \<longleftrightarrow> (1::int) = 0 \<and> 0 < fst (onNotification DiagnosticsBegin 1))"
  by simp


section \<open>Properties of the launcher and its listeners\<close>

lemma settle_fields:
  assumes "fst (settle cfg h ch) = Some l"
  shows "stderr_shown l = showStderrInOutputChannel cfg"
    and "lcOutputChannel l = ch"
    and "logStream l = (if logToFile cfg
           then Some \<lparr>logPath = log_path (rootPath h) (now h), data_listeners = 0\<rparr> else None)"
  using assms
  by (auto simp: settle_def makeRlsProcess_def spawned_def onSpawned_def Let_def
           split: if_splits spawn_reply.splits rustup_reply.splits)

lemma step_preserves:
  assumes "step cfg l e = Inr (l', acts)"
  shows "stderr_shown l' = stderr_shown l"
    and "lcOutputChannel l' = lcOutputChannel l"
    and "child l' = child l"
    and "map_option logPath (logStream l') = map_option logPath (logStream l)"
  using assms by (cases e; auto split: if_splits option.splits)+

lemma run_preserves:
  assumes "run cfg l es = (acts, Inr l')"
  shows "stderr_shown l' = stderr_shown l \<and> lcOutputChannel l' = lcOutputChannel l
         \<and> child l' = child l
         \<and> map_option logPath (logStream l') = map_option logPath (logStream l)"
  using assms
proof (induction es arbitrary: l acts)
  case Nil
  then show ?case by simp
next
  case (Cons e es)
  from Cons.prems obtain l1 a1 where s: "step cfg l e = Inr (l1, a1)"
    by (cases "step cfg l e") auto
  from Cons.prems s obtain rest where r: "run cfg l1 es = (rest, Inr l')"
    by (cases "run cfg l1 es") auto
  show ?case using Cons.IH [OF r] step_preserves [OF s] by simp
qed


text \<open>
  Claim C3, evaluated on the code at a binary path that does not exist. The launcher
  returns a promise that resolves with the handle, and leaves the attaching of the
  listeners to a promise job. When that job runs before the runtime emits the error
  event with code ENOENT, the event is handled by logging it and showing the warning
  that the server could not be started. When the runtime emits the event before the
  job, the process has no error listener yet and the error is thrown: the failure is
  not caught and no message is shown.
\<close>

theorem missing_binary_uncaught:
  "outcome (makeRlsProcess
      \<lparr>logToFile = False, showStderrInOutputChannel = True, revealOutputChannelOn = Never\<rparr>
      \<lparr>RLS_PATH = Some ''/nonexistent'', RLS_ROOT = None, spawn = (\<lambda>cmd args cwd. Spawned 7),
        runRlsViaRustup = RustupRejects JUndefined, rootPath = Some ''/w'', now = 1500\<rparr>
      (Some 3)) = Inr (Some 7)
   \<and> queued (makeRlsProcess
      \<lparr>logToFile = False, showStderrInOutputChannel = True, revealOutputChannelOn = Never\<rparr>
      \<lparr>RLS_PATH = Some ''/nonexistent'', RLS_ROOT = None, spawn = (\<lambda>cmd args cwd. Spawned 7),
        runRlsViaRustup = RustupRejects JUndefined, rootPath = Some ''/w'', now = 1500\<rparr>
      (Some 3)) = Some (ThenJob 7 (Some 3))
   \<and> schedule
      \<lparr>logToFile = False, showStderrInOutputChannel = True, revealOutputChannelOn = Never\<rparr>
      \<lparr>RLS_PATH = Some ''/nonexistent'', RLS_ROOT = None, spawn = (\<lambda>cmd args cwd. Spawned 7),
        runRlsViaRustup = RustupRejects JUndefined, rootPath = Some ''/w'', now = 1500\<rparr>
      (Waiting (ThenJob 7 (Some 3)))
      [ProcessEvent (ProcessError \<lparr>name = ''Error'', message = ''spawn /nonexistent ENOENT'',
                                    code = Some ''ENOENT''\<rparr>),
       PromiseJob]
     = ([], Inl \<lparr>name = ''Error'', message = ''spawn /nonexistent ENOENT'', code = Some ''ENOENT''\<rparr>)
   \<and> schedule
      \<lparr>logToFile = False, showStderrInOutputChannel = True, revealOutputChannelOn = Never\<rparr>
      \<lparr>RLS_PATH = Some ''/nonexistent'', RLS_ROOT = None, spawn = (\<lambda>cmd args cwd. Spawned 7),
        runRlsViaRustup = RustupRejects JUndefined, rootPath = Some ''/w'', now = 1500\<rparr>
      (Waiting (ThenJob 7 (Some 3)))
      [PromiseJob,
       ProcessEvent (ProcessError \<lparr>name = ''Error'', message = ''spawn /nonexistent ENOENT'',
                                    code = Some ''ENOENT''\<rparr>)]
     = ([ConsoleError [''Could not spawn RLS process: '', ''spawn /nonexistent ENOENT''],
         ShowWarningMessage ''Could not start RLS''],
        Inr (Listening \<lparr>child = 7, logStream = None, stderr_shown = True,
                         lcOutputChannel = Some 3\<rparr>))"
  by (simp add: makeRlsProcess_def truthy_def js_string_def spawned_def onSpawned_def)

text \<open>
  The same on any launch: an error event that reaches a process before the promise job
  has attached the listeners is thrown, whatever its code.
\<close>

lemma early_error_thrown:
  "advance cfg h (Waiting (ThenJob p ch)) (ProcessEvent (ProcessError err)) = Inl err"
  by simp



lemma launch_calls:
  "filter is_launch (calls (makeRlsProcess cfg h ch)) =
     [if truthy (RLS_PATH h) then Spawn (js_string (RLS_PATH h)) [] None
      else if truthy (RLS_ROOT h) then
        Spawn ''cargo'' [''run'', ''--release''] (Some (js_string (RLS_ROOT h)))
      else RunRlsViaRustup]"
  by (simp add: makeRlsProcess_def spawned_def onSpawned_def Let_def
           split: spawn_reply.splits rustup_reply.splits)

lemma rustup_called:
  "RunRlsViaRustup \<in> set (calls (makeRlsProcess cfg h ch))
     \<longleftrightarrow> \<not> truthy (RLS_PATH h) \<and> \<not> truthy (RLS_ROOT h)"
  by (simp add: makeRlsProcess_def spawned_def onSpawned_def Let_def
           split: spawn_reply.splits rustup_reply.splits)

lemma truthy_iff: "truthy v \<longleftrightarrow> (\<exists>s. v = Some s \<and> s \<noteq> [])"
  by (cases v) (simp_all add: truthy_def)

text \<open>
  Claim C5, as the code has it. Each call of the launcher makes exactly one launching
  call. The tests on the two variables are JavaScript truth tests, so a variable set to
  the empty string counts as absent: a non-empty binary path is spawned directly with
  no arguments; failing that, a non-empty project root runs \<^verbatim>\<open>cargo run --release\<close>
  in that directory; and the toolchain resolver is called exactly when each of the two
  variables is absent or empty.
\<close>

theorem launch_strategy:
  "filter is_launch (calls (makeRlsProcess cfg h ch)) =
     [case RLS_PATH h of
        Some (x # xs) \<Rightarrow> Spawn (x # xs) [] None
      | _ \<Rightarrow>
        (case RLS_ROOT h of
           Some (y # ys) \<Rightarrow> Spawn ''cargo'' [''run'', ''--release''] (Some (y # ys))
         | _ \<Rightarrow> RunRlsViaRustup)]
   \<and> (RunRlsViaRustup \<in> set (calls (makeRlsProcess cfg h ch))
        \<longleftrightarrow> (RLS_PATH h = None \<or> RLS_PATH h = Some []) \<and> (RLS_ROOT h = None \<or> RLS_ROOT h = Some []))"
proof -
  have one: "filter is_launch (calls (makeRlsProcess cfg h ch)) =
     [case RLS_PATH h of
        Some (x # xs) \<Rightarrow> Spawn (x # xs) [] None
      | _ \<Rightarrow>
        (case RLS_ROOT h of
           Some (y # ys) \<Rightarrow> Spawn ''cargo'' [''run'', ''--release''] (Some (y # ys))
         | _ \<Rightarrow> RunRlsViaRustup)]"
    unfolding launch_calls
    by (simp add: truthy_def js_string_def split: option.splits list.splits)
  have two: "RunRlsViaRustup \<in> set (calls (makeRlsProcess cfg h ch))
        \<longleftrightarrow> (RLS_PATH h = None \<or> RLS_PATH h = Some []) \<and> (RLS_ROOT h = None \<or> RLS_ROOT h = Some [])"
    unfolding rustup_called
    by (auto simp: truthy_def split: option.splits)
  show ?thesis using one two by (rule conjI)
qed

theorem launch_strategy_witness:
  "filter is_launch (calls (makeRlsProcess
      \<lparr>logToFile = True, showStderrInOutputChannel = True, revealOutputChannelOn = Never\<rparr>
      \<lparr>RLS_PATH = None, RLS_ROOT = Some ''/src/rls'', spawn = (\<lambda>cmd args cwd. Spawned 7),
        runRlsViaRustup = RustupRejects JUndefined, rootPath = Some ''/w'', now = 1500\<rparr>
      None)) = [Spawn ''cargo'' [''run'', ''--release''] (Some ''/src/rls'')]"
  using launch_strategy [of
      "\<lparr>logToFile = True, showStderrInOutputChannel = True, revealOutputChannelOn = Never\<rparr>"
      "\<lparr>RLS_PATH = None, RLS_ROOT = Some ''/src/rls'', spawn = (\<lambda>cmd args cwd. Spawned 7),
        runRlsViaRustup = RustupRejects JUndefined, rootPath = Some ''/w'', now = 1500\<rparr>"
      None]
  by simp

text \<open>
  Claim C5 as stated fails when the binary-path variable is set to the empty string:
  the resolver is called although a variable is present.
\<close>

theorem empty_path_counterexample:
  "\<not> (RunRlsViaRustup \<in> set (calls (makeRlsProcess
          \<lparr>logToFile = False, showStderrInOutputChannel = False, revealOutputChannelOn = Never\<rparr>
          \<lparr>RLS_PATH = Some [], RLS_ROOT = None, spawn = (\<lambda>cmd args cwd. Spawned 7),
            runRlsViaRustup = RustupResolves 8, rootPath = Some ''/w'', now = 1500\<rparr>
          None))
       \<longleftrightarrow> RLS_PATH \<lparr>RLS_PATH = Some [], RLS_ROOT = None, spawn = (\<lambda>cmd args cwd. Spawned 7),
            runRlsViaRustup = RustupResolves 8, rootPath = Some ''/w'', now = 1500\<rparr> = None
         \<and> RLS_ROOT \<lparr>RLS_PATH = Some [], RLS_ROOT = None, spawn = (\<lambda>cmd args cwd. Spawned 7),
            runRlsViaRustup = RustupResolves 8, rootPath = Some ''/w'', now = 1500\<rparr> = None)"
  by (simp add: makeRlsProcess_def truthy_def onSpawned_def)

lemma log_stderr_no_channel: "filter is_channel_action (log_stderr l c) = []"
  by (simp add: log_stderr_def split: option.splits)

text \<open>
  Claim C6. With show-stderr-in-output enabled, when the launcher is called with an
  output channel and obtains a process, its promise job puts the listener in place, and
  from then on, at any point of a run, every chunk of the error stream is appended to the
  channel, and the channel is shown with \<^verbatim>\<open>preserveFocus = true\<close> exactly when
  the configured threshold is at or below Info, which of the four thresholds is Info
  alone; the log listener adds no channel call.
\<close>

theorem stderr_forwarded:
  assumes "showStderrInOutputChannel cfg"
    and "truthy (RLS_PATH h) \<Longrightarrow> spawn h (js_string (RLS_PATH h)) [] None = Spawned p"
    and "\<not> truthy (RLS_PATH h) \<Longrightarrow> truthy (RLS_ROOT h) \<Longrightarrow>
           spawn h ''cargo'' [''run'', ''--release''] (Some (js_string (RLS_ROOT h))) = Spawned p"
    and "\<not> truthy (RLS_PATH h) \<Longrightarrow> \<not> truthy (RLS_ROOT h) \<Longrightarrow>
           runRlsViaRustup h = RustupResolves p"
  shows "\<exists>l0. fst (settle cfg h (Some ch)) = Some l0 \<and> child l0 = p
           \<and> (\<forall>evs acts l. run cfg l0 evs = (acts, Inr l) \<longrightarrow>
                 step cfg l (StderrData c) =
                   Inr (l, ChannelAppend ch (chunk_text c) #
                           (if severity (revealOutputChannelOn cfg) \<le> severity Info
                            then [ChannelShow ch True] else []) @ log_stderr l c)
                 \<and> filter is_channel_action (log_stderr l c) = [])
           \<and> (severity (revealOutputChannelOn cfg) \<le> severity Info
                \<longleftrightarrow> revealOutputChannelOn cfg = Info)"
proof -
  define l0 where "l0 = \<lparr>child = p,
                 logStream = (if logToFile cfg
                   then Some \<lparr>logPath = log_path (rootPath h) (now h), data_listeners = 0\<rparr>
                   else None),
                 stderr_shown = showStderrInOutputChannel cfg,
                 lcOutputChannel = Some ch\<rparr>"
  have l0: "fst (settle cfg h (Some ch)) = Some l0"
    unfolding l0_def using assms(2,3,4)
    by (cases "truthy (RLS_PATH h)"; cases "truthy (RLS_ROOT h)")
       (simp_all add: settle_def makeRlsProcess_def spawned_def onSpawned_def Let_def)
  have p: "child l0 = p" and shown: "stderr_shown l0" and chan: "lcOutputChannel l0 = Some ch"
    using assms(1) by (simp_all add: l0_def)
  have fwd: "step cfg l (StderrData c) =
           Inr (l, ChannelAppend ch (chunk_text c) #
                   (if severity (revealOutputChannelOn cfg) \<le> severity Info
                    then [ChannelShow ch True] else []) @ log_stderr l c)
         \<and> filter is_channel_action (log_stderr l c) = []"
    if r: "run cfg l0 evs = (acts, Inr l)" for evs acts l
  proof -
    have "stderr_shown l" and "lcOutputChannel l = Some ch"
      using run_preserves [OF r] shown chan by simp_all
    then show ?thesis using log_stderr_no_channel by (simp add: show_stderr_def)
  qed
  have "severity (revealOutputChannelOn cfg) \<le> severity Info
              \<longleftrightarrow> revealOutputChannelOn cfg = Info"
    by (cases "revealOutputChannelOn cfg") simp_all
  then show ?thesis using l0 p fwd by blast
qed

theorem stderr_forwarded_witness:
  "fst (settle \<lparr>logToFile = False, showStderrInOutputChannel = True, revealOutputChannelOn = Info\<rparr>
         \<lparr>RLS_PATH = Some ''/bin/rls'', RLS_ROOT = None, spawn = (\<lambda>cmd args cwd. Spawned 7),
           runRlsViaRustup = RustupResolves 7, rootPath = Some ''/w'', now = 1500\<rparr>
         (Some 3))
     = Some \<lparr>child = 7, logStream = None, stderr_shown = True, lcOutputChannel = Some 3\<rparr>
   \<and> step \<lparr>logToFile = False, showStderrInOutputChannel = True, revealOutputChannelOn = Info\<rparr>
        \<lparr>child = 7, logStream = None, stderr_shown = True, lcOutputChannel = Some 3\<rparr>
        (StderrData (BufferChunk ''warning: unused''))
     = Inr (\<lparr>child = 7, logStream = None, stderr_shown = True, lcOutputChannel = Some 3\<rparr>,
            [ChannelAppend 3 ''warning: unused'', ChannelShow 3 True])
   \<and> step \<lparr>logToFile = False, showStderrInOutputChannel = True, revealOutputChannelOn = Error\<rparr>
        \<lparr>child = 7, logStream = None, stderr_shown = True, lcOutputChannel = Some 3\<rparr>
        (StderrData (BufferChunk ''warning: unused''))
     = Inr (\<lparr>child = 7, logStream = None, stderr_shown = True, lcOutputChannel = Some 3\<rparr>,
            [ChannelAppend 3 ''warning: unused''])"
  using stderr_forwarded [where
      cfg = "\<lparr>logToFile = False, showStderrInOutputChannel = True, revealOutputChannelOn = Info\<rparr>"
      and h = "\<lparr>RLS_PATH = Some ''/bin/rls'', RLS_ROOT = None, spawn = (\<lambda>cmd args cwd. Spawned 7),
        runRlsViaRustup = RustupResolves 7, rootPath = Some ''/w'', now = 1500\<rparr>"
      and p = 7 and ch = 3 and c = "BufferChunk ''warning: unused''"]
    stderr_forwarded [where
      cfg = "\<lparr>logToFile = False, showStderrInOutputChannel = True, revealOutputChannelOn = Error\<rparr>"
      and h = "\<lparr>RLS_PATH = None, RLS_ROOT = None,
        spawn = (\<lambda>cmd args cwd. SpawnThrows \<lparr>name = ''Error'', message = ''EINVAL'', code = None\<rparr>),
        runRlsViaRustup = RustupResolves 7, rootPath = Some ''/w'', now = 1500\<rparr>"
      and p = 7 and ch = 3 and c = "BufferChunk ''warning: unused''"]
  by (simp add: settle_def makeRlsProcess_def truthy_def js_string_def spawned_def onSpawned_def
        show_stderr_def log_stderr_def)


section \<open>Properties of the log file\<close>









lemma decimal_1500: "decimal 1500 = ''1500''"
  by (simp add: decimal.simps digit_def)











section \<open>Properties of the stream error handler\<close>

text \<open>
  Claim C9. With log-to-file enabled, a launch that obtains a process has, once its
  promise job has run, the log stream with its error handler in place. From then on, at
  any point of a run, an error event of the log stream, whether it comes before or
  after the stream opened, is handled by logging the path and the error to the console
  and ending the stream. No exception leaves the handler and the listeners are left as
  they were, so the events that follow, further chunks for the output channel among
  them, are handled as they would have been.
\<close>

theorem stream_error_contained:
  assumes "logToFile cfg"
    and "truthy (RLS_PATH h) \<Longrightarrow> spawn h (js_string (RLS_PATH h)) [] None = Spawned p"
    and "\<not> truthy (RLS_PATH h) \<Longrightarrow> truthy (RLS_ROOT h) \<Longrightarrow>
           spawn h ''cargo'' [''run'', ''--release''] (Some (js_string (RLS_ROOT h))) = Spawned p"
    and "\<not> truthy (RLS_PATH h) \<Longrightarrow> \<not> truthy (RLS_ROOT h) \<Longrightarrow>
           runRlsViaRustup h = RustupResolves p"
  shows "\<exists>l0. fst (settle cfg h ch) = Some l0
           \<and> CreateWriteStream (log_path (rootPath h) (now h)) ''w+'' \<in> set (snd (settle cfg h ch))
           \<and> (\<forall>before acts l. run cfg l0 before = (acts, Inr l) \<longrightarrow>
                step cfg l (StreamError err) =
                  Inr (l, [ConsoleError [''Couldn'' @ [CHR 0x27] @ ''t write to '' @
                                         log_path (rootPath h) (now h) @ '' ('' @
                                         error_to_string err @ '')''],
                           StreamEnd (log_path (rootPath h) (now h))])
                \<and> (\<forall>evs. run cfg l (StreamError err # evs) =
                      (case run cfg l evs of (rest, r) \<Rightarrow>
                         ([ConsoleError [''Couldn'' @ [CHR 0x27] @ ''t write to '' @
                                         log_path (rootPath h) (now h) @ '' ('' @
                                         error_to_string err @ '')''],
                           StreamEnd (log_path (rootPath h) (now h))] @ rest, r))))"
proof -
  let ?path = "log_path (rootPath h) (now h)"
  define l0 where "l0 = \<lparr>child = p,
                 logStream = (if logToFile cfg
                   then Some \<lparr>logPath = log_path (rootPath h) (now h), data_listeners = 0\<rparr>
                   else None),
                 stderr_shown = showStderrInOutputChannel cfg,
                 lcOutputChannel = ch\<rparr>"
  have l0: "fst (settle cfg h ch) = Some l0"
    unfolding l0_def using assms(2,3,4)
    by (cases "truthy (RLS_PATH h)"; cases "truthy (RLS_ROOT h)")
       (simp_all add: settle_def makeRlsProcess_def spawned_def onSpawned_def Let_def)
  have opened: "CreateWriteStream ?path ''w+'' \<in> set (snd (settle cfg h ch))"
    using assms
    by (cases "truthy (RLS_PATH h)"; cases "truthy (RLS_ROOT h)")
       (simp_all add: settle_def makeRlsProcess_def spawned_def onSpawned_def Let_def)
  have s0: "map_option logPath (logStream l0) = Some ?path"
    using assms(1) by (simp add: l0_def)
  have handled: "step cfg l (StreamError err) =
                  Inr (l, [ConsoleError [''Couldn'' @ [CHR 0x27] @ ''t write to '' @ ?path @ '' ('' @
                                         error_to_string err @ '')''],
                           StreamEnd ?path])
                \<and> (\<forall>evs. run cfg l (StreamError err # evs) =
                      (case run cfg l evs of (rest, r) \<Rightarrow>
                         ([ConsoleError [''Couldn'' @ [CHR 0x27] @ ''t write to '' @ ?path @ '' ('' @
                                         error_to_string err @ '')''],
                           StreamEnd ?path] @ rest, r)))"
    if r: "run cfg l0 before = (acts, Inr l)" for before acts l
  proof -
    have "map_option logPath (logStream l) = Some ?path"
      using run_preserves [OF r] s0 by simp
    then obtain s where "logStream l = Some s" and "logPath s = ?path" by auto
    then show ?thesis by simp
  qed
  show ?thesis using l0 opened handled by blast
qed

theorem stream_error_contained_witness:
  "fst (settle \<lparr>logToFile = True, showStderrInOutputChannel = True, revealOutputChannelOn = Error\<rparr>
         \<lparr>RLS_PATH = Some ''/bin/rls'', RLS_ROOT = None, spawn = (\<lambda>cmd args cwd. Spawned 7),
           runRlsViaRustup = RustupResolves 7, rootPath = Some ''/w'', now = 1500\<rparr> (Some 3))
     = Some \<lparr>child = 7, logStream = Some \<lparr>logPath = ''/w/rls1500.log'', data_listeners = 0\<rparr>,
              stderr_shown = True, lcOutputChannel = Some 3\<rparr>
   \<and> run \<lparr>logToFile = True, showStderrInOutputChannel = True, revealOutputChannelOn = Error\<rparr>
       \<lparr>child = 7, logStream = Some \<lparr>logPath = ''/w/rls1500.log'', data_listeners = 0\<rparr>,
         stderr_shown = True, lcOutputChannel = Some 3\<rparr>
       [StreamOpen,
        StreamError \<lparr>name = ''Error'', message = ''ENOSPC'', code = Some ''ENOSPC''\<rparr>,
        StderrData (StringChunk ''more'')]
   = ([ConsoleError [''Couldn'' @ [CHR 0x27] @ ''t write to /w/rls1500.log (Error: ENOSPC)''],
       StreamEnd ''/w/rls1500.log'',
       ChannelAppend 3 ''more'', StreamWrite ''/w/rls1500.log'' ''more''],
      Inr \<lparr>child = 7, logStream = Some \<lparr>logPath = ''/w/rls1500.log'', data_listeners = 1\<rparr>,
         stderr_shown = True, lcOutputChannel = Some 3\<rparr>)"
  using stream_error_contained [where
      cfg = "\<lparr>logToFile = True, showStderrInOutputChannel = True, revealOutputChannelOn = Error\<rparr>"
      and h = "\<lparr>RLS_PATH = Some ''/bin/rls'', RLS_ROOT = None, spawn = (\<lambda>cmd args cwd. Spawned 7),
        runRlsViaRustup = RustupResolves 7, rootPath = Some ''/w'', now = 1500\<rparr>"
      and p = 7 and ch = "Some 3"
      and err = "\<lparr>name = ''Error'', message = ''ENOSPC'', code = Some ''ENOSPC''\<rparr>"]
  by (simp add: settle_def makeRlsProcess_def truthy_def js_string_def spawned_def onSpawned_def
        log_path_def decimal_1500 show_stderr_def log_stderr_def Let_def error_to_string_def)

section \<open>Properties of the activation\<close>

lemma host_step_sessions:
  assumes "host_step cfg a e = Inr (a', acts)" and "i < length (sessions a)"
  shows "i < length (sessions a')
         \<and> lcOutputChannel (sessions a' ! i) = lcOutputChannel (sessions a ! i)
         \<and> stderr_shown (sessions a' ! i) = stderr_shown (sessions a ! i)"
proof (cases e)
  case (InvokeServerOptions h)
  then show ?thesis using assms
    by (auto simp: nth_append split: sum.splits prod.splits)
next
  case (AssignOutputChannel ch)
  then show ?thesis using assms by auto
next
  case (Emit j ev)
  show ?thesis
  proof (cases "j < length (sessions a)")
    case False
    then show ?thesis using assms Emit by auto
  next
    case True
    then obtain l' where s: "step cfg (sessions a ! j) ev = Inr (l', acts)"
      and a': "a' = a\<lparr>sessions := (sessions a)[j := l']\<rparr>"
      using assms(1) Emit by (auto split: sum.splits)
    show ?thesis
      using a' assms(2) step_preserves(1,2) [OF s] by (cases "i = j") simp_all
  qed
qed

lemma host_run_sessions:
  assumes "host_run cfg a es = (acts, Inr a')" and "i < length (sessions a)"
  shows "i < length (sessions a')
         \<and> lcOutputChannel (sessions a' ! i) = lcOutputChannel (sessions a ! i)
         \<and> stderr_shown (sessions a' ! i) = stderr_shown (sessions a ! i)"
  using assms
proof (induction es arbitrary: a acts)
  case Nil
  then show ?case by simp
next
  case (Cons e es)
  from Cons.prems(1) obtain a1 acts1 where s: "host_step cfg a e = Inr (a1, acts1)"
    by (cases "host_step cfg a e") auto
  from Cons.prems(1) s obtain rest where r: "host_run cfg a1 es = (rest, Inr a')"
    by (cases "host_run cfg a1 es") auto
  have one: "i < length (sessions a1)
         \<and> lcOutputChannel (sessions a1 ! i) = lcOutputChannel (sessions a ! i)
         \<and> stderr_shown (sessions a1 ! i) = stderr_shown (sessions a ! i)"
    using host_step_sessions [OF s Cons.prems(2)] .
  then have "i < length (sessions a1)" by simp
  then show ?case using Cons.IH [OF r] one by simp
qed

lemma emit_null_channel:
  assumes "i < length (sessions a)" and "lcOutputChannel (sessions a ! i) = None"
  shows "host_step cfg a (Emit i (StderrData c)) = Inr (a, log_stderr (sessions a ! i) c)"
  using assms by (simp add: show_stderr_def)

text \<open>
  Claim C10, as the code has it. The listener uses the value of the parameter the
  launcher was called with. When that value is null, every chunk that arrives at the
  listener of that launch is discarded: nothing is appended, the channel is not shown
  and no exception is raised; this stays so after any later events, assignments to the
  shared variable included.
\<close>

theorem null_channel_discards:
  assumes "i < length (sessions a)" and "lcOutputChannel (sessions a ! i) = None"
    and "host_run cfg a later = (acts, Inr a')"
  shows "i < length (sessions a')
         \<and> host_step cfg a' (Emit i (StderrData c)) = Inr (a', log_stderr (sessions a' ! i) c)
         \<and> filter is_channel_action (log_stderr (sessions a' ! i) c) = []"
proof -
  have k: "i < length (sessions a')" and n: "lcOutputChannel (sessions a' ! i) = None"
    using host_run_sessions [OF assms(3,1)] assms(2) by simp_all
  show ?thesis using k emit_null_channel [OF k n] log_stderr_no_channel by simp
qed

theorem null_channel_discards_witness:
  "host_run \<lparr>logToFile = False, showStderrInOutputChannel = True, revealOutputChannelOn = Info\<rparr>
     \<lparr>lcOutputChannelVar = None,
       sessions = [\<lparr>child = 7, logStream = None, stderr_shown = True, lcOutputChannel = None\<rparr>]\<rparr>
     [AssignOutputChannel 3, Emit 0 (StderrData (StringChunk ''late''))]
   = ([], Inr \<lparr>lcOutputChannelVar = Some 3,
       sessions = [\<lparr>child = 7, logStream = None, stderr_shown = True, lcOutputChannel = None\<rparr>]\<rparr>)"
  using null_channel_discards [where
      cfg = "\<lparr>logToFile = False, showStderrInOutputChannel = True, revealOutputChannelOn = Info\<rparr>"
      and a = "\<lparr>lcOutputChannelVar = None,
       sessions = [\<lparr>child = 7, logStream = None, stderr_shown = True, lcOutputChannel = None\<rparr>]\<rparr>"
      and i = 0 and later = "[AssignOutputChannel 3]" and acts = "[]"
      and a' = "\<lparr>lcOutputChannelVar = Some 3,
       sessions = [\<lparr>child = 7, logStream = None, stderr_shown = True, lcOutputChannel = None\<rparr>]\<rparr>"
      and c = "StringChunk ''late''"]
  by (simp add: log_stderr_def)

text \<open>
  Claim C10 as stated fails in its last part. The launcher is invoked while the
  variable is still null, the variable is assigned afterwards, and a chunk arrives:
  the listener does not resume forwarding, the chunk is not appended.
\<close>

theorem resume_after_assignment_counterexample:
  "\<not> ChannelAppend 3 ''late'' \<in> set (fst (host_run
        \<lparr>logToFile = False, showStderrInOutputChannel = True, revealOutputChannelOn = Info\<rparr>
        \<lparr>lcOutputChannelVar = None, sessions = []\<rparr>
        [InvokeServerOptions
           \<lparr>RLS_PATH = Some ''/bin/rls'', RLS_ROOT = None, spawn = (\<lambda>cmd args cwd. Spawned 7),
             runRlsViaRustup = RustupRejects JUndefined, rootPath = Some ''/w'', now = 1500\<rparr>,
         Emit 0 (StderrData (StringChunk ''early'')),
         AssignOutputChannel 3,
         Emit 0 (StderrData (StringChunk ''late''))]))"
  by (simp add: settle_def makeRlsProcess_def truthy_def js_string_def spawned_def
        onSpawned_def show_stderr_def log_stderr_def Let_def)

text \<open>
  In the order of \<^verbatim>\<open>activate\<close> the closure is invoked after the assignment, so the
  listeners of the process it launches hold the client's channel.
\<close>

lemma activate_channel:
  assumes "activate cfg h oc later = (acts, Inr a')"
    and "fst (settle cfg h (Some oc)) = Some l"
  shows "0 < length (sessions a') \<and> lcOutputChannel (sessions a' ! 0) = Some oc"
proof -
  let ?a1 = "\<lparr>lcOutputChannelVar = Some oc, sessions = []\<rparr>"
  let ?r = "makeRlsProcess cfg h (Some oc)"
  have "\<exists>v. outcome ?r = Inr v"
    using assms(2)
    by (auto simp: settle_def makeRlsProcess_def spawned_def Let_def
             split: if_splits spawn_reply.splits rustup_reply.splits)
  then obtain v where v: "outcome ?r = Inr v" by blast
  obtain calls0 where st: "settle cfg h (Some oc) = (Some l, calls0)"
    using assms(2) by (cases "settle cfg h (Some oc)") simp
  let ?a2 = "\<lparr>lcOutputChannelVar = Some oc, sessions = [l]\<rparr>"
  obtain rest x where hr: "host_run cfg ?a2 later = (rest, x)"
    by (cases "host_run cfg ?a2 later")
  have "activate cfg h oc later =
          (SetStatusBarMessage ''RLS analysis: starting up'' # calls0 @ rest, x)"
    unfolding activate_def using v st hr by simp
  then have "x = Inr a'" using assms(1) by simp
  then have r: "host_run cfg ?a2 later = (rest, Inr a')" using hr by simp
  have "lcOutputChannel l = Some oc" using settle_fields(2) [OF assms(2)] .
  then show ?thesis using host_run_sessions [OF r, of 0] by simp
qed

section \<open>Properties of the command handler\<close>

text \<open>
  Claim C8. When the request is rejected, the handler shows one warning and no
  other: the text \<^verbatim>\<open>deglob command failed: \<close> followed by the reason as a string,
  which therefore contains the reason. No exception leaves the handler when the request
  is rejected, nor when it is fulfilled, where no warning is shown.
\<close>

theorem deglob_warns:
  "deglob ed (Rejected reason) =
     Inr [SendRequest ''rustWorkspace/deglob'' (uri ed) (selection ed),
          ShowWarningMessage (''deglob command failed: '' @ to_string reason)]
   \<and> (\<exists>acts m. deglob ed (Rejected reason) = Inr acts
         \<and> filter is_warning acts = [ShowWarningMessage m] \<and> sublist (to_string reason) m)
   \<and> (\<exists>acts. deglob ed Fulfilled = Inr acts \<and> filter is_warning acts = [])"
proof -
  have "sublist (to_string reason) (''deglob command failed: '' @ to_string reason)"
    by (rule suffix_imp_sublist) (rule suffixI, rule refl)
  then show ?thesis by simp
qed

theorem deglob_warns_witness:
  "\<exists>acts m. deglob \<lparr>uri = ''file:///w/src/main.rs'', selection = ((3, 4), (3, 9))\<rparr>
               (Rejected (JString ''timeout'')) = Inr acts
      \<and> filter is_warning acts = [ShowWarningMessage m] \<and> sublist ''timeout'' m"
  using deglob_warns [of "\<lparr>uri = ''file:///w/src/main.rs'', selection = ((3, 4), (3, 9))\<rparr>"
                         "JString ''timeout''"]
  by simp

end
